theory Spec2Isabelle
  imports Complex_Main "HOL-Library.Char_ord" "HOL-Library.List_Lexorder"
begin

section \<open>Numbers\<close>

text \<open>
  The script computes on pandas columns of IEEE binary64 numbers. A cell is modelled as a
  rational number or one of the three special values; \<open>NaN\<close> is also what pandas stores
  for a missing cell. Every arithmetic operation takes the rounding function applied to
  its finite result: \<open>exact\<close> is arithmetic without rounding error, \<open>binary64\<close> rounds to
  the nearest number with a 53-bit significand, ties to even. Overflow, gradual underflow
  and the sign of zero are not modelled.
\<close>

datatype fnum = Fin rat | PInf | NInf | NaN

type_synonym rounding = "rat \<Rightarrow> rat"

definition exact :: rounding where
  "exact x = x"

definition rint :: "rat \<Rightarrow> int" where
  "rint x = (let f = \<lfloor>x\<rfloor>; d = x - of_int f
             in if d < 1 / 2 then f else if 1 / 2 < d then f + 1
                else if even f then f else f + 1)"

text \<open>
  \<open>exponent n x\<close> is the \<open>e\<close> with \<open>2 ^ 52 \<le> x / 2 ^ e < 2 ^ 53\<close>, found in at most
  \<open>n\<close> doublings or halvings; 1100 of them cover the exponent range of binary64.
  The two bounds are written out: \<open>2 ^ 52 = 4503599627370496\<close>.
\<close>

fun exponent :: "nat \<Rightarrow> rat \<Rightarrow> int" where
  "exponent 0 x = 0"
| "exponent (Suc n) x =
     (if x < 4503599627370496 then exponent n (x * 2) - 1
      else if 9007199254740992 \<le> x then exponent n (x / 2) + 1
      else 0)"

definition binary64 :: rounding where
  "binary64 x =
     (if x = 0 then 0
      else let e = exponent 1100 \<bar>x\<bar>
           in of_int (rint (x / 2 powi e)) * 2 powi e)"

fun is_finite :: "fnum \<Rightarrow> bool" where
  "is_finite (Fin a) = True"
| "is_finite x = False"

definition isnull :: "fnum \<Rightarrow> bool" where
  "isnull x = (x = NaN)"

fun fneg :: "fnum \<Rightarrow> fnum" where
  "fneg (Fin a) = Fin (- a)"
| "fneg PInf = NInf"
| "fneg NInf = PInf"
| "fneg NaN = NaN"

fun fabs :: "fnum \<Rightarrow> fnum" where
  "fabs (Fin a) = Fin \<bar>a\<bar>"
| "fabs PInf = PInf"
| "fabs NInf = PInf"
| "fabs NaN = NaN"

fun fadd :: "rounding \<Rightarrow> fnum \<Rightarrow> fnum \<Rightarrow> fnum" where
  "fadd r (Fin a) (Fin b) = Fin (r (a + b))"
| "fadd r NaN y = NaN"
| "fadd r x NaN = NaN"
| "fadd r PInf NInf = NaN"
| "fadd r NInf PInf = NaN"
| "fadd r PInf y = PInf"
| "fadd r x PInf = PInf"
| "fadd r NInf y = NInf"
| "fadd r x NInf = NInf"

definition fsub :: "rounding \<Rightarrow> fnum \<Rightarrow> fnum \<Rightarrow> fnum" where
  "fsub r x y = fadd r x (fneg y)"

text \<open>The product and the quotient of an infinity and a finite number, by the sign.\<close>

definition inf_by_sign :: "bool \<Rightarrow> rat \<Rightarrow> fnum" where
  "inf_by_sign positive a =
     (if a = 0 then NaN else if (0 < a) = positive then PInf else NInf)"

fun fmul :: "rounding \<Rightarrow> fnum \<Rightarrow> fnum \<Rightarrow> fnum" where
  "fmul r (Fin a) (Fin b) = Fin (r (a * b))"
| "fmul r NaN y = NaN"
| "fmul r x NaN = NaN"
| "fmul r (Fin a) PInf = inf_by_sign True a"
| "fmul r (Fin a) NInf = inf_by_sign False a"
| "fmul r PInf (Fin b) = inf_by_sign True b"
| "fmul r NInf (Fin b) = inf_by_sign False b"
| "fmul r PInf PInf = PInf"
| "fmul r NInf NInf = PInf"
| "fmul r PInf NInf = NInf"
| "fmul r NInf PInf = NInf"

fun fdiv :: "rounding \<Rightarrow> fnum \<Rightarrow> fnum \<Rightarrow> fnum" where
  "fdiv r (Fin a) (Fin b) = (if b = 0 then inf_by_sign True a else Fin (r (a / b)))"
| "fdiv r NaN y = NaN"
| "fdiv r x NaN = NaN"
| "fdiv r (Fin a) y = Fin 0"
| "fdiv r PInf (Fin b) = (if 0 \<le> b then PInf else NInf)"
| "fdiv r NInf (Fin b) = (if 0 \<le> b then NInf else PInf)"
| "fdiv r PInf PInf = NaN"
| "fdiv r PInf NInf = NaN"
| "fdiv r NInf PInf = NaN"
| "fdiv r NInf NInf = NaN"

text \<open>The comparison \<open><\<close> of IEEE numbers: false whenever an operand is \<open>NaN\<close>.\<close>

fun flt :: "fnum \<Rightarrow> fnum \<Rightarrow> bool" where
  "flt NaN y = False"
| "flt x NaN = False"
| "flt (Fin a) (Fin b) = (a < b)"
| "flt x NInf = False"
| "flt NInf y = True"
| "flt PInf y = False"
| "flt x PInf = True"

definition fle :: "fnum \<Rightarrow> fnum \<Rightarrow> bool" where
  "fle x y = (x \<noteq> NaN \<and> y \<noteq> NaN \<and> \<not> flt y x)"

text \<open>\<open>numpy.rint\<close>, and \<open>round(2)\<close> as numpy computes it: scale by 100, round to an
  integer, divide by 100.\<close>

fun frint :: "fnum \<Rightarrow> fnum" where
  "frint (Fin a) = Fin (of_int (rint a))"
| "frint x = x"

definition round2 :: "rounding \<Rightarrow> fnum \<Rightarrow> fnum" where
  "round2 r x = fdiv r (frint (fmul r x (Fin 100))) (Fin 100)"

text \<open>
  \<open>Series.sum\<close> and the group sums skip missing values; \<open>ndarray.sum\<close> does not. The
  terms are added from left to right, each sum rounded. That is the order of numpy for
  fewer than 8 terms; the pairwise order it takes for more, and the compensated sums of
  the pandas groups, differ from it in the rounding only.
\<close>

definition array_sum :: "rounding \<Rightarrow> fnum list \<Rightarrow> fnum" where
  "array_sum r xs = foldl (fadd r) (Fin 0) xs"

definition series_sum :: "rounding \<Rightarrow> fnum list \<Rightarrow> fnum" where
  "series_sum r xs = array_sum r (filter (\<lambda>x. \<not> isnull x) xs)"

text \<open>\<open>Series.cumsum\<close>: a missing value stays missing and does not enter the running sum.\<close>

fun cumsum_from :: "rounding \<Rightarrow> fnum \<Rightarrow> fnum list \<Rightarrow> fnum list" where
  "cumsum_from r acc [] = []"
| "cumsum_from r acc (x # xs) =
     (if isnull x then NaN # cumsum_from r acc xs
      else fadd r acc x # cumsum_from r (fadd r acc x) xs)"

definition cumsum :: "rounding \<Rightarrow> fnum list \<Rightarrow> fnum list" where
  "cumsum r xs = cumsum_from r (Fin 0) xs"

section \<open>Tables\<close>

text \<open>
  The three data frames, one record per row, the fields named after the CSV columns the
  script reads. Identifiers are integers and are always present; a numeric cell may be
  missing (\<open>NaN\<close>). A classification code is an integer or a string, as \<open>read_csv\<close>
  infers the column.
\<close>

datatype coicop_code = IntCode int | StrCode string

record household =
  hh_id :: int
  weight :: fnum
  hh_size :: fnum

record expense =
  exp_hh_id :: int
  exp_product_id :: int
  annual_expenditure :: fnum

record product =
  product_id :: int
  coicop_survey_1 :: coicop_code

text \<open>
  \<open>DataFrame.merge\<close> on one key column, the default inner join: every pair of a left and
  a right row with equal keys, in the order of the left rows.
\<close>

definition merge_on :: "('a \<Rightarrow> 'k) \<Rightarrow> ('b \<Rightarrow> 'k) \<Rightarrow> 'a list \<Rightarrow> 'b list \<Rightarrow> ('a \<times> 'b) list" where
  "merge_on kl kr ls rs =
     concat (map (\<lambda>l. map (Pair l) (filter (\<lambda>x. kr x = kl l) rs)) ls)"

text \<open>
  \<open>groupby(key)[column].sum()\<close>: one row per key that is not missing, the keys ascending,
  with the sum of the group's values that are not missing.
\<close>

definition groupby_sum :: "rounding \<Rightarrow> ('k::linorder option \<times> fnum) list \<Rightarrow> ('k \<times> fnum) list" where
  "groupby_sum r rows =
     map (\<lambda>k. (k, series_sum r (map snd (filter (\<lambda>row. fst row = Some k) rows))))
       (sort (remdups (List.map_filter fst rows)))"

section \<open>Rendering of integers and lists\<close>

fun str_nat :: "nat \<Rightarrow> string" where
  "str_nat n =
     (if n < 10 then [''0123456789'' ! n]
      else str_nat (n div 10) @ [''0123456789'' ! (n mod 10)])"

declare str_nat.simps [simp del]

definition str_int :: "int \<Rightarrow> string" where
  "str_int i = (if i < 0 then ''-'' @ str_nat (nat (- i)) else str_nat (nat i))"

fun join :: "string \<Rightarrow> string list \<Rightarrow> string" where
  "join sep [] = []"
| "join sep [x] = x"
| "join sep (x # y # ys) = x @ sep @ join sep (y # ys)"

definition repr_list :: "string list \<Rightarrow> string" where
  "repr_list xs = ''['' @ join '', '' (map (\<lambda>x. [CHR 0x27] @ x @ [CHR 0x27]) xs) @ '']''"

section \<open>The validator\<close>

text \<open>What the script writes: lines of text, and the values it prints or saves.\<close>

datatype printed =
  Text string
| ShareTable "(string \<times> fnum) list"
| BottomFifty fnum
| Gini fnum

datatype file_content =
  ShareCsv "(string \<times> fnum) list"
| LorenzPlot "fnum list" "fnum list"

record world =
  df_households :: "household list"
  df_expenses :: "expense list"
  df_products :: "product list"
  console :: "printed list"
  files :: "string \<rightharpoonup> file_content"

datatype py_error = ValueError

text \<open>
  \<open>df.columns[df.isnull().any()].tolist()\<close>: the columns with a missing value, in the
  order of the columns of the file. Only the numeric columns can have one here, so the
  product table has none.
\<close>

definition nan_columns_households :: "household list \<Rightarrow> string list" where
  "nan_columns_households hs =
     map fst (filter snd
       [(''weight'', list_ex (\<lambda>h. isnull (weight h)) hs),
        (''hh_size'', list_ex (\<lambda>h. isnull (hh_size h)) hs)])"

definition nan_columns_expenses :: "expense list \<Rightarrow> string list" where
  "nan_columns_expenses es =
     map fst (filter snd
       [(''annual_expenditure'', list_ex (\<lambda>e. isnull (annual_expenditure e)) es)])"

definition nan_columns_products :: "product list \<Rightarrow> string list" where
  "nan_columns_products ps = []"

definition missing_values_warning :: "string \<Rightarrow> string list \<Rightarrow> string list" where
  "missing_values_warning df_name nan_columns =
     (if nan_columns \<noteq> []
      then [''Warning: Missing values detected in '' @ df_name @ '' dataset in columns: ''
              @ repr_list nan_columns]
      else [])"

definition sanity_header :: string where
  "sanity_header =
     ''...................................sanity Check...........................'' @ [CHR 0x0A]"

definition households_recorded :: "nat \<Rightarrow> string" where
  "households_recorded n =
     ''Yes, every household ('' @ str_nat n @ '') has expenses recorded.''"

definition households_missing :: string where
  "households_missing = ''Warning: Some households do not have recorded expenses.''"

definition sanity_check :: "household list \<Rightarrow> expense list \<Rightarrow> product list \<Rightarrow> string list" where
  "sanity_check hs es ps =
     (let household_ids = set (map hh_id hs);
          expense_ids = set (map exp_hh_id es)
      in [sanity_header,
          if household_ids \<subseteq> expense_ids
          then households_recorded (card household_ids)
          else households_missing]
         @ missing_values_warning ''households'' (nan_columns_households hs)
         @ missing_values_warning ''expenses'' (nan_columns_expenses es)
         @ missing_values_warning ''products'' (nan_columns_products ps))"

definition sanity_check_step :: "world \<Rightarrow> py_error + world" where
  "sanity_check_step w =
     Inr (w\<lparr>console := console w
              @ map Text (sanity_check (df_households w) (df_expenses w) (df_products w))\<rparr>)"

section \<open>The category share aggregator\<close>

definition coicop_mapping :: "string \<rightharpoonup> string" where
  "coicop_mapping = map_of
     [(''1'', ''FOOD AND NON-ALCOHOLIC BEVERAGES''),
      (''2'', ''ALCOHOLIC BEVERAGES, TOBACCO AND NARCOTICS''),
      (''3'', ''CLOTHING AND FOOTWEAR''),
      (''4'', ''HOUSING, WATER, ELECTRICITY, GAS AND OTHER FUELS''),
      (''5'', ''FURNISHINGS, HOUSEHOLD EQUIPMENT AND ROUTINE HOUSEHOLD MAINTENANCE''),
      (''6'', ''HEALTH''),
      (''7'', ''TRANSPORT''),
      (''8'', ''COMMUNICATION''),
      (''9'', ''RECREATION AND CULTURE''),
      (''10'', ''EDUCATION''),
      (''11'', ''RESTAURANTS AND HOTELS''),
      (''12'', ''MISCELLANEOUS GOODS AND SERVICES'')]"

fun astype_str :: "coicop_code \<Rightarrow> string" where
  "astype_str (IntCode i) = str_int i"
| "astype_str (StrCode s) = s"

definition coicop_category :: "product \<Rightarrow> string option" where
  "coicop_category p = coicop_mapping (astype_str (coicop_survey_1 p))"

text \<open>
  The expense rows after the two merges, each with its two derived columns:
  \<open>coicop_category\<close> (missing for a code outside the mapping) and
  \<open>weighted_expenditure\<close>.
\<close>

definition weighted_expenses ::
  "rounding \<Rightarrow> household list \<Rightarrow> expense list \<Rightarrow> product list \<Rightarrow> (string option \<times> fnum) list" where
  "weighted_expenses r hs es ps =
     map (\<lambda>((e, p), h). (coicop_category p, fmul r (annual_expenditure e) (weight h)))
       (merge_on (\<lambda>(e, p). exp_hh_id e) hh_id (merge_on exp_product_id product_id es ps) hs)"

definition national_expenditure ::
  "rounding \<Rightarrow> household list \<Rightarrow> expense list \<Rightarrow> product list \<Rightarrow> (string \<times> fnum) list" where
  "national_expenditure r hs es ps = groupby_sum r (weighted_expenses r hs es ps)"

definition total_expenditure ::
  "rounding \<Rightarrow> household list \<Rightarrow> expense list \<Rightarrow> product list \<Rightarrow> fnum" where
  "total_expenditure r hs es ps = series_sum r (map snd (national_expenditure r hs es ps))"

definition compute_national_share ::
  "rounding \<Rightarrow> household list \<Rightarrow> expense list \<Rightarrow> product list \<Rightarrow> (string \<times> fnum) list" where
  "compute_national_share r hs es ps =
     map (\<lambda>(c, x). (c, round2 r (fmul r (fdiv r x (total_expenditure r hs es ps)) (Fin 100))))
       (national_expenditure r hs es ps)"

definition compute_national_share_step :: "rounding \<Rightarrow> world \<Rightarrow> py_error + world" where
  "compute_national_share_step r w =
     (let df_national_share =
            compute_national_share r (df_households w) (df_expenses w) (df_products w)
      in Inr (w\<lparr>files := (files w)(''output/national_share.csv'' \<mapsto> ShareCsv df_national_share),
                console := console w
                  @ [Text ''National Share of Spending by COICOP Level 1:'',
                     ShareTable df_national_share]\<rparr>))"

section \<open>The Lorenz curve and the Gini coefficient\<close>

record hh_total =
  t_hh_id :: int
  t_annual_expenditure :: fnum
  t_weight :: fnum
  t_hh_size :: fnum

definition household_totals :: "rounding \<Rightarrow> household list \<Rightarrow> expense list \<Rightarrow> hh_total list" where
  "household_totals r hs es =
     map (\<lambda>((i, x), h).
           \<lparr>t_hh_id = i, t_annual_expenditure = x, t_weight = weight h, t_hh_size = hh_size h\<rparr>)
       (merge_on fst hh_id
          (groupby_sum r (map (\<lambda>e. (Some (exp_hh_id e), annual_expenditure e)) es)) hs)"

definition per_capita_expenditure :: "rounding \<Rightarrow> hh_total \<Rightarrow> fnum" where
  "per_capita_expenditure r t = fdiv r (t_annual_expenditure t) (t_hh_size t)"

text \<open>
  \<open>sort_values\<close>, ascending with the missing values last. The script's default sort is not
  stable; the model takes the stable order, which is one of the orders it may produce.
\<close>

definition sorts_before :: "fnum \<Rightarrow> fnum \<Rightarrow> bool" where
  "sorts_before x y = (y = NaN \<or> (x \<noteq> NaN \<and> \<not> flt y x))"

fun insert_value :: "('a \<Rightarrow> fnum) \<Rightarrow> 'a \<Rightarrow> 'a list \<Rightarrow> 'a list" where
  "insert_value f x [] = [x]"
| "insert_value f x (y # ys) =
     (if sorts_before (f x) (f y) then x # y # ys else y # insert_value f x ys)"

definition sort_values :: "('a \<Rightarrow> fnum) \<Rightarrow> 'a list \<Rightarrow> 'a list" where
  "sort_values f xs = foldr (insert_value f) xs []"

definition sorted_totals :: "rounding \<Rightarrow> household list \<Rightarrow> expense list \<Rightarrow> hh_total list" where
  "sorted_totals r hs es = sort_values (per_capita_expenditure r) (household_totals r hs es)"

definition cumulative_share :: "rounding \<Rightarrow> fnum list \<Rightarrow> fnum list" where
  "cumulative_share r xs = cumsum r (map (\<lambda>x. fdiv r x (series_sum r xs)) xs)"

definition population_weight :: "rounding \<Rightarrow> hh_total list \<Rightarrow> fnum list" where
  "population_weight r ts = map (\<lambda>t. fmul r (t_hh_size t) (t_weight t)) ts"

definition expenditure_weight :: "rounding \<Rightarrow> hh_total list \<Rightarrow> fnum list" where
  "expenditure_weight r ts = map (\<lambda>t. fmul r (t_annual_expenditure t) (t_weight t)) ts"

definition cum_pop :: "rounding \<Rightarrow> hh_total list \<Rightarrow> fnum list" where
  "cum_pop r ts = cumulative_share r (population_weight r ts)"

definition cum_exp :: "rounding \<Rightarrow> hh_total list \<Rightarrow> fnum list" where
  "cum_exp r ts = cumulative_share r (expenditure_weight r ts)"

text \<open>
  \<open>numpy.argmin\<close> of a series: the position of the first smallest value among those that
  are not missing. It raises \<open>ValueError\<close> on an empty series and, in pandas 3, on a
  series of missing values only.
\<close>

fun argmin_from :: "nat \<Rightarrow> (nat \<times> fnum) option \<Rightarrow> fnum list \<Rightarrow> nat option" where
  "argmin_from i best [] = map_option fst best"
| "argmin_from i best (x # xs) =
     argmin_from (Suc i)
       (if isnull x then best
        else case best of
               None \<Rightarrow> Some (i, x)
             | Some (j, y) \<Rightarrow> if flt x y then Some (i, x) else Some (j, y))
       xs"

definition argmin :: "fnum list \<Rightarrow> py_error + nat" where
  "argmin xs = (case argmin_from 0 None xs of None \<Rightarrow> Inl ValueError | Some i \<Rightarrow> Inr i)"

definition distance_to_half :: "rounding \<Rightarrow> fnum \<Rightarrow> fnum" where
  "distance_to_half r x = fabs (fsub r x (Fin (1 / 2)))"

definition nearest_fifty :: "rounding \<Rightarrow> fnum list \<Rightarrow> py_error + nat" where
  "nearest_fifty r xs = argmin (map (distance_to_half r) xs)"

text \<open>\<open>numpy.trapezoid y x\<close>: the sum of \<open>(x\<^sub>i\<^sub>+\<^sub>1 - x\<^sub>i) * (y\<^sub>i\<^sub>+\<^sub>1 + y\<^sub>i) / 2\<close>.\<close>

fun trapezoid_terms :: "rounding \<Rightarrow> fnum list \<Rightarrow> fnum list \<Rightarrow> fnum list" where
  "trapezoid_terms r (y0 # y1 # ys) (x0 # x1 # xs) =
     fdiv r (fmul r (fsub r x1 x0) (fadd r y1 y0)) (Fin 2)
       # trapezoid_terms r (y1 # ys) (x1 # xs)"
| "trapezoid_terms r ys xs = []"

definition trapezoid :: "rounding \<Rightarrow> fnum list \<Rightarrow> fnum list \<Rightarrow> fnum" where
  "trapezoid r ys xs = array_sum r (trapezoid_terms r ys xs)"

definition gini_coefficient :: "rounding \<Rightarrow> fnum list \<Rightarrow> fnum list \<Rightarrow> fnum" where
  "gini_coefficient r lorenz_y lorenz_x =
     fsub r (Fin 1) (fmul r (Fin 2) (trapezoid r lorenz_y lorenz_x))"

definition fifty_percentile_share :: "rounding \<Rightarrow> fnum list \<Rightarrow> nat \<Rightarrow> fnum" where
  "fifty_percentile_share r ce i = round2 r (fmul r (Fin 100) (ce ! i))"

text \<open>The stage returns the two numbers it prints: the bottom-50% share and the Gini
  coefficient.\<close>

definition compute_lorenz_curve_and_gini ::
  "rounding \<Rightarrow> household list \<Rightarrow> expense list \<Rightarrow> py_error + fnum \<times> fnum" where
  "compute_lorenz_curve_and_gini r hs es =
     (let ts = sorted_totals r hs es;
          lorenz_x = cum_pop r ts;
          lorenz_y = cum_exp r ts
      in case nearest_fifty r lorenz_x of
           Inl e \<Rightarrow> Inl e
         | Inr i \<Rightarrow> Inr (fifty_percentile_share r lorenz_y i,
                         gini_coefficient r lorenz_y lorenz_x))"

definition compute_lorenz_curve_and_gini_step :: "rounding \<Rightarrow> world \<Rightarrow> py_error + world" where
  "compute_lorenz_curve_and_gini_step r w =
     (let ts = sorted_totals r (df_households w) (df_expenses w)
      in case compute_lorenz_curve_and_gini r (df_households w) (df_expenses w) of
           Inl e \<Rightarrow> Inl e
         | Inr (share, gini) \<Rightarrow>
             Inr (w\<lparr>files := (files w)(''output/lorenz_curve.png'' \<mapsto>
                                 LorenzPlot (cum_pop r ts) (cum_exp r ts)),
                    console := console w @ [BottomFifty share, Gini gini]\<rparr>))"

text \<open>The script: the three stages in turn, on the tables as loaded.\<close>

definition main :: "rounding \<Rightarrow> world \<Rightarrow> py_error + world" where
  "main r w =
     (case sanity_check_step w of
        Inl e \<Rightarrow> Inl e
      | Inr w1 \<Rightarrow>
          (case compute_national_share_step r w1 of
             Inl e \<Rightarrow> Inl e
           | Inr w2 \<Rightarrow> compute_lorenz_curve_and_gini_step r w2))"

section \<open>Valid inputs\<close>

text \<open>
  The data model's conditions on the input tables: every sampling weight and household
  size is a positive number, every expenditure a number that is not negative.
\<close>

fun positive :: "fnum \<Rightarrow> bool" where
  "positive (Fin a) = (0 < a)"
| "positive x = False"

fun non_negative :: "fnum \<Rightarrow> bool" where
  "non_negative (Fin a) = (0 \<le> a)"
| "non_negative x = False"

text \<open>The value of a number that is finite.\<close>

fun the_fin :: "fnum \<Rightarrow> rat" where
  "the_fin (Fin a) = a"
| "the_fin x = 0"

definition valid_households :: "household list \<Rightarrow> bool" where
  "valid_households hs = list_all (\<lambda>h. positive (weight h) \<and> positive (hh_size h)) hs"

definition valid_expenses :: "expense list \<Rightarrow> bool" where
  "valid_expenses es = list_all (\<lambda>e. non_negative (annual_expenditure e)) es"

section \<open>Example inputs\<close>

definition hs_zero :: "household list" where
  "hs_zero = [\<lparr>hh_id = 1, weight = Fin 2, hh_size = Fin 3\<rparr>,
              \<lparr>hh_id = 2, weight = Fin 1, hh_size = Fin 1\<rparr>]"

definition es_zero :: "expense list" where
  "es_zero = [\<lparr>exp_hh_id = 1, exp_product_id = 1, annual_expenditure = Fin 0\<rparr>,
              \<lparr>exp_hh_id = 2, exp_product_id = 1, annual_expenditure = Fin 0\<rparr>]"

definition ps_zero :: "product list" where
  "ps_zero = [\<lparr>product_id = 1, coicop_survey_1 = IntCode 1\<rparr>]"

text \<open>One household buys a product of category 1 and a product whose code, 13, is outside
  the mapping.\<close>

definition hs_unmapped :: "household list" where
  "hs_unmapped = [\<lparr>hh_id = 1, weight = Fin 1, hh_size = Fin 1\<rparr>]"

definition es_unmapped :: "expense list" where
  "es_unmapped = [\<lparr>exp_hh_id = 1, exp_product_id = 1, annual_expenditure = Fin 10\<rparr>,
                  \<lparr>exp_hh_id = 1, exp_product_id = 2, annual_expenditure = Fin 30\<rparr>]"

definition ps_unmapped :: "product list" where
  "ps_unmapped = [\<lparr>product_id = 1, coicop_survey_1 = IntCode 1\<rparr>,
                  \<lparr>product_id = 2, coicop_survey_1 = IntCode 13\<rparr>]"

text \<open>The scenario of the specification: three households of one person and weight 1,
  spending 10, 20 and 30.\<close>

definition scenario_households :: "household list" where
  "scenario_households =
     [\<lparr>hh_id = 1, weight = Fin 1, hh_size = Fin 1\<rparr>,
      \<lparr>hh_id = 2, weight = Fin 1, hh_size = Fin 1\<rparr>,
      \<lparr>hh_id = 3, weight = Fin 1, hh_size = Fin 1\<rparr>]"

definition scenario_expenses :: "expense list" where
  "scenario_expenses =
     [\<lparr>exp_hh_id = 1, exp_product_id = 1, annual_expenditure = Fin 10\<rparr>,
      \<lparr>exp_hh_id = 2, exp_product_id = 1, annual_expenditure = Fin 20\<rparr>,
      \<lparr>exp_hh_id = 3, exp_product_id = 1, annual_expenditure = Fin 30\<rparr>]"

text \<open>Perfectly equal populations: one household, and two households alike.\<close>

definition hs_single :: "household list" where
  "hs_single = [\<lparr>hh_id = 1, weight = Fin 1, hh_size = Fin 1\<rparr>]"

definition es_single :: "expense list" where
  "es_single = [\<lparr>exp_hh_id = 1, exp_product_id = 1, annual_expenditure = Fin 10\<rparr>]"

definition hs_equal :: "household list" where
  "hs_equal = [\<lparr>hh_id = 1, weight = Fin 1, hh_size = Fin 1\<rparr>,
               \<lparr>hh_id = 2, weight = Fin 1, hh_size = Fin 1\<rparr>]"

definition es_equal :: "expense list" where
  "es_equal = [\<lparr>exp_hh_id = 1, exp_product_id = 1, annual_expenditure = Fin 10\<rparr>,
               \<lparr>exp_hh_id = 2, exp_product_id = 1, annual_expenditure = Fin 10\<rparr>]"



section \<open>The first smallest value\<close>

text \<open>What \<open>argmin\<close> is to return: the position of a value that is not missing, no other
  such value smaller, and every earlier one larger.\<close>

definition first_smallest :: "fnum list \<Rightarrow> nat \<Rightarrow> bool" where
  "first_smallest ds k \<longleftrightarrow>
     k < length ds \<and> \<not> isnull (ds ! k)
     \<and> (\<forall>j < length ds. \<not> isnull (ds ! j) \<longrightarrow> \<not> flt (ds ! j) (ds ! k))
     \<and> (\<forall>j < k. \<not> isnull (ds ! j) \<longrightarrow> flt (ds ! k) (ds ! j))"

section \<open>The Lorenz curve on rationals\<close>

text \<open>
  For the proofs in exact arithmetic: the running sums and the trapezoid area as functions
  of rationals, the two weights of a row (population and expenditure), the order of two
  rows by expenditure per unit of population weight, written without division, and the
  valid rows.
\<close>

fun running :: "rat \<Rightarrow> rat list \<Rightarrow> rat list" where
  "running a [] = []"
| "running a (q # qs) = (a + q) # running (a + q) qs"

fun trapezoid_area :: "rat list \<Rightarrow> rat list \<Rightarrow> rat" where
  "trapezoid_area (y0 # y1 # ys) (x0 # x1 # xs) =
     (x1 - x0) * (y1 + y0) / 2 + trapezoid_area (y1 # ys) (x1 # xs)"
| "trapezoid_area ys xs = 0"

definition ratio_le :: "rat \<times> rat \<Rightarrow> rat \<times> rat \<Rightarrow> bool" where
  "ratio_le a b \<longleftrightarrow> snd a * fst b \<le> snd b * fst a"

definition lorenz_weights :: "hh_total \<Rightarrow> rat \<times> rat" where
  "lorenz_weights t =
     (the_fin (t_hh_size t) * the_fin (t_weight t),
      the_fin (t_annual_expenditure t) * the_fin (t_weight t))"

definition valid_total :: "hh_total \<Rightarrow> bool" where
  "valid_total t \<longleftrightarrow>
     positive (t_weight t) \<and> positive (t_hh_size t) \<and> non_negative (t_annual_expenditure t)"

section \<open>Properties of the validator\<close>

lemma households_missing_not_header: "households_missing \<noteq> sanity_header"
  by (simp add: households_missing_def sanity_header_def)

lemma households_missing_not_recorded: "households_missing \<noteq> households_recorded n"
  by (simp add: households_missing_def households_recorded_def)

lemma households_missing_not_nan_warning:
  "households_missing \<notin> set (missing_values_warning df_name nan_columns)"
  by (simp add: households_missing_def missing_values_warning_def)

text \<open>
  C1, as the code has it. The warning is printed exactly when some identifier of the
  household table is absent from the expense table: the check runs from the households
  to the expenses, as the docstring of \<open>sanity_check\<close> says. An identifier that the
  expense table alone holds is not looked for.
\<close>

theorem sanity_check_warns_iff:
  "households_missing \<in> set (sanity_check hs es ps)
     \<longleftrightarrow> \<not> set (map hh_id hs) \<subseteq> set (map exp_hh_id es)"
  unfolding sanity_check_def Let_def
  using households_missing_not_header households_missing_not_recorded
    households_missing_not_nan_warning
  by auto

theorem sanity_check_warns_iff_witness:
  "households_missing \<in> set (sanity_check
       [\<lparr>hh_id = 1, weight = Fin 1, hh_size = Fin 2\<rparr>,
        \<lparr>hh_id = 2, weight = Fin 1, hh_size = Fin 2\<rparr>]
       [\<lparr>exp_hh_id = 1, exp_product_id = 7, annual_expenditure = Fin 10\<rparr>] [])"
  using sanity_check_warns_iff [of
       "[\<lparr>hh_id = 1, weight = Fin 1, hh_size = Fin 2\<rparr>,
         \<lparr>hh_id = 2, weight = Fin 1, hh_size = Fin 2\<rparr>]"
       "[\<lparr>exp_hh_id = 1, exp_product_id = 7, annual_expenditure = Fin 10\<rparr>]" "[]"]
  by simp

text \<open>
  C1, as the claim states it, fails: household 2 has expenses and no row in the
  household table, and the validator prints the confirmation.
\<close>

theorem expense_only_household_counterexample:
  "\<not> (\<forall>hs es ps. (\<exists>i \<in> set (map exp_hh_id es). i \<notin> set (map hh_id hs))
        \<longrightarrow> households_missing \<in> set (sanity_check hs es ps))"
proof
  assume claim: "\<forall>hs es ps. (\<exists>i \<in> set (map exp_hh_id es). i \<notin> set (map hh_id hs))
        \<longrightarrow> households_missing \<in> set (sanity_check hs es ps)"
  let ?hs = "[\<lparr>hh_id = 1, weight = Fin 1, hh_size = Fin 2\<rparr>]"
  let ?es = "[\<lparr>exp_hh_id = 1, exp_product_id = 7, annual_expenditure = Fin 10\<rparr>,
              \<lparr>exp_hh_id = 2, exp_product_id = 7, annual_expenditure = Fin 5\<rparr>]"
  have "\<exists>i \<in> set (map exp_hh_id ?es). i \<notin> set (map hh_id ?hs)" by simp
  with claim have "households_missing \<in> set (sanity_check ?hs ?es [])" by blast
  moreover have "sanity_check ?hs ?es [] = [sanity_header, households_recorded 1]"
    by (simp add: sanity_check_def nan_columns_households_def nan_columns_expenses_def
        nan_columns_products_def missing_values_warning_def isnull_def)
  ultimately show False
    using households_missing_not_header households_missing_not_recorded by simp
qed

text \<open>
  C8. After the header the validator prints one line: the confirmation, with the number
  of distinct household identifiers, when the identifiers of the household table are a
  subset of those of the expense table, and the warning otherwise. The two lines differ.
  The stage returns normally in both cases and the script goes on with the two stages
  that follow.
\<close>

theorem sanity_check_subset_report:
  "\<exists>rest w1.
     sanity_check (df_households w) (df_expenses w) (df_products w)
       = sanity_header
         # (if set (map hh_id (df_households w)) \<subseteq> set (map exp_hh_id (df_expenses w))
            then households_recorded (card (set (map hh_id (df_households w))))
            else households_missing)
         # rest
     \<and> households_recorded n \<noteq> households_missing
     \<and> sanity_check_step w = Inr w1
     \<and> main r w = (case compute_national_share_step r w1 of
                     Inl e \<Rightarrow> Inl e
                   | Inr w2 \<Rightarrow> compute_lorenz_curve_and_gini_step r w2)"
  using households_missing_not_recorded [of n]
  by (simp add: sanity_check_def main_def sanity_check_step_def Let_def)

text \<open>
  C9. The validator returns the world it was given with lines added to the console and
  nothing else changed: the three tables and the files are those of the input.
\<close>

theorem sanity_check_step_frame:
  "\<exists>w1 out.
     sanity_check_step w = Inr w1
     \<and> df_households w1 = df_households w
     \<and> df_expenses w1 = df_expenses w
     \<and> df_products w1 = df_products w
     \<and> files w1 = files w
     \<and> console w1 = console w @ out
     \<and> w1 = w\<lparr>console := console w @ out\<rparr>"
  by (simp add: sanity_check_step_def)

section \<open>Evaluation on concrete tables\<close>

text \<open>The simplification rules that evaluate the stages on a table written out, and the
  binary64 roundings of the numbers the examples meet.\<close>

lemma floor_rat_numeral [simp]:
  "\<lfloor>(numeral a :: rat) / numeral b\<rfloor> = numeral a div numeral b"
  by (metis floor_divide_of_int_eq of_int_numeral)

lemmas b64 = binary64_def rint_def eval_nat_numeral Let_def

lemmas table_simps = sorted_totals_def household_totals_def groupby_sum_def merge_on_def
  List.map_filter_simps series_sum_def array_sum_def isnull_def sort_values_def
  per_capita_expenditure_def sorts_before_def

lemmas share_simps = cum_pop_def cum_exp_def cumulative_share_def population_weight_def
  expenditure_weight_def cumsum_def series_sum_def array_sum_def isnull_def

lemmas result_simps = compute_lorenz_curve_and_gini_def nearest_fifty_def argmin_def
  distance_to_half_def fsub_def isnull_def fifty_percentile_share_def round2_def
  gini_coefficient_def trapezoid_def array_sum_def

lemmas share_eval = weighted_expenses_def national_expenditure_def total_expenditure_def
  compute_national_share_def coicop_category_def coicop_mapping_def str_int_def
  str_nat.simps groupby_sum_def merge_on_def List.map_filter_simps series_sum_def
  array_sum_def isnull_def round2_def

lemma b64_values:
  "binary64 0 = 0" "binary64 1 = 1" "binary64 2 = 2" "binary64 3 = 3"
  "binary64 6 = 6" "binary64 7 = 7" "binary64 13 = 13" "binary64 14 = 14"
  "binary64 10 = 10" "binary64 20 = 20" "binary64 21 = 21" "binary64 30 = 30"
  "binary64 41 = 41" "binary64 60 = 60"
  "binary64 50 = 50" "binary64 100 = 100" "binary64 5000 = 5000" "binary64 10000 = 10000"
  "binary64 (1 / 2) = 1 / 2" "binary64 (1 / 4) = 1 / 4" "binary64 (3 / 4) = 3 / 4"
  "binary64 (3 / 2) = 3 / 2" "binary64 (3 / 8) = 3 / 8"
  by (simp_all add: b64)

section \<open>Arithmetic without rounding\<close>

text \<open>With the rounding function \<open>exact\<close>, the identity, sums and cumulative sums of
  numbers that are not negative are those of the rationals.\<close>

lemma non_negative_iff: "non_negative x \<longleftrightarrow> (\<exists>a. x = Fin a \<and> 0 \<le> a)"
  by (cases x) simp_all

lemma positive_iff: "positive x \<longleftrightarrow> (\<exists>a. x = Fin a \<and> 0 < a)"
  by (cases x) simp_all


lemma foldl_fadd_id:
  "\<forall>x \<in> set xs. non_negative x \<Longrightarrow>
   foldl (fadd (\<lambda>v. v)) (Fin a) xs = Fin (a + sum_list (map the_fin xs))"
  by (induction xs arbitrary: a) (auto simp: non_negative_iff add.assoc)

lemma filter_not_null: "\<forall>x \<in> set xs. non_negative x \<Longrightarrow> filter (\<lambda>x. \<not> isnull x) xs = xs"
  by (induction xs) (auto simp: non_negative_iff isnull_def)

lemma series_sum_id:
  "\<forall>x \<in> set xs. non_negative x \<Longrightarrow> series_sum (\<lambda>v. v) xs = Fin (sum_list (map the_fin xs))"
  by (simp add: series_sum_def array_sum_def filter_not_null foldl_fadd_id)

lemma sum_list_the_fin_nonneg:
  "\<forall>x \<in> set xs. non_negative x \<Longrightarrow> 0 \<le> sum_list (map the_fin xs)"
  by (induction xs) (auto simp: non_negative_iff)

lemma series_sum_non_negative:
  "\<forall>x \<in> set xs. non_negative x \<Longrightarrow> non_negative (series_sum (\<lambda>v. v) xs)"
  by (simp add: series_sum_id sum_list_the_fin_nonneg)




lemma set_insert_value: "set (insert_value f x xs) = insert x (set xs)"
  by (induction xs) auto

lemma set_sort_values: "set (sort_values f xs) = set xs"
  by (induction xs) (simp_all add: sort_values_def set_insert_value)

lemma set_merge_on:
  "set (merge_on kl kr ls rs) = {(l, x). l \<in> set ls \<and> x \<in> set rs \<and> kr x = kl l}"
  by (auto simp: merge_on_def)

lemma groupby_sum_values:
  "(k, x) \<in> set (groupby_sum r rows) \<Longrightarrow>
   x = series_sum r (map snd (filter (\<lambda>row. fst row = Some k) rows))"
  by (auto simp: groupby_sum_def)

lemma groupby_sum_non_negative:
  assumes "\<forall>row \<in> set rows. non_negative (snd row)" "(k, x) \<in> set (groupby_sum (\<lambda>v. v) rows)"
  shows "non_negative x"
proof -
  have "\<forall>y \<in> set (map snd (filter (\<lambda>row. fst row = Some k) rows)). non_negative y"
    using assms(1) by auto
  then show ?thesis
    using groupby_sum_values [OF assms(2)] by (simp add: series_sum_non_negative)
qed

lemma household_totals_valid:
  assumes hs: "valid_households hs" and es: "valid_expenses es"
    and t: "t \<in> set (household_totals (\<lambda>v. v) hs es)"
  shows "positive (t_weight t) \<and> positive (t_hh_size t) \<and> non_negative (t_annual_expenditure t)"
proof -
  let ?rows = "map (\<lambda>e. (Some (exp_hh_id e), annual_expenditure e)) es"
  from t obtain i x h where t_eq: "t = \<lparr>t_hh_id = i, t_annual_expenditure = x,
      t_weight = weight h, t_hh_size = hh_size h\<rparr>"
    and g: "(i, x) \<in> set (groupby_sum (\<lambda>v. v) ?rows)" and h: "h \<in> set hs"
    by (auto simp: household_totals_def set_merge_on)
  have "\<forall>row \<in> set ?rows. non_negative (snd row)"
    using es by (auto simp: valid_expenses_def list_all_iff)
  then have "non_negative x" using g by (rule groupby_sum_non_negative)
  moreover have "positive (weight h) \<and> positive (hh_size h)"
    using hs h by (auto simp: valid_households_def list_all_iff)
  ultimately show ?thesis by (simp add: t_eq)
qed

lemma sorted_totals_valid:
  assumes "valid_households hs" "valid_expenses es"
    and "t \<in> set (sorted_totals (\<lambda>v. v) hs es)"
  shows "positive (t_weight t) \<and> positive (t_hh_size t) \<and> non_negative (t_annual_expenditure t)"
  using assms household_totals_valid [of hs es t]
  by (simp add: sorted_totals_def set_sort_values)




lemma exact_eq: "exact = (\<lambda>v. v)"
  by (rule ext) (simp add: exact_def)





section \<open>Properties of the category share aggregator\<close>

lemma merge_on_filter_right:
  "merge_on kl kr ls (filter P rs) = filter (\<lambda>row. P (snd row)) (merge_on kl kr ls rs)"
  by (induction ls) (simp_all add: merge_on_def filter_map comp_def conj_commute)

lemma merge_on_filter_left:
  "merge_on kl kr (filter P ls) rs = filter (\<lambda>row. P (fst row)) (merge_on kl kr ls rs)"
  by (induction ls) (simp_all add: merge_on_def filter_map comp_def)

lemma weighted_expenses_mapped_products:
  "weighted_expenses r hs es (filter (\<lambda>p. coicop_category p \<noteq> None) ps)
     = filter (\<lambda>row. fst row \<noteq> None) (weighted_expenses r hs es ps)"
  by (simp add: weighted_expenses_def merge_on_filter_right merge_on_filter_left
      filter_map comp_def case_prod_unfold)

lemma groupby_sum_drops_missing_keys:
  "groupby_sum r (filter (\<lambda>row. fst row \<noteq> None) rows) = groupby_sum r rows"
proof -
  have keys: "List.map_filter fst (filter (\<lambda>row. fst row \<noteq> None) rows) = List.map_filter fst rows"
    by (induction rows) (auto simp: List.map_filter_simps split: option.splits)
  have grp: "\<And>k. filter (\<lambda>row. fst row = Some k) (filter (\<lambda>row. fst row \<noteq> None) rows)
      = filter (\<lambda>row. fst row = Some k) rows"
    by (induction rows) auto
  show ?thesis unfolding groupby_sum_def by (simp only: keys grp)
qed

lemma groupby_sum_keys:
  "fst ` set (groupby_sum r rows) = {k. Some k \<in> fst ` set rows}"
  by (force simp: groupby_sum_def List.map_filter_def image_iff)

text \<open>
  C4, as the code has it. The aggregation does not fail, and an expense row whose product
  has a code outside the mapping is dropped by the grouping, which skips a missing
  category: the table of shares is the one computed without the products of such codes,
  so the row enters no category sum and not the grand total, and every category of the
  table is one of the twelve names.
\<close>

theorem unmapped_rows_dropped:
  "compute_national_share r hs es ps
     = compute_national_share r hs es (filter (\<lambda>p. coicop_category p \<noteq> None) ps)
   \<and> fst ` set (compute_national_share r hs es ps) \<subseteq> ran coicop_mapping
   \<and> (\<exists>w1. compute_national_share_step r w = Inr w1)"
proof -
  have ne: "national_expenditure r hs es (filter (\<lambda>p. coicop_category p \<noteq> None) ps)
      = national_expenditure r hs es ps"
    unfolding national_expenditure_def
    by (simp only: weighted_expenses_mapped_products groupby_sum_drops_missing_keys)
  have eq: "compute_national_share r hs es ps
     = compute_national_share r hs es (filter (\<lambda>p. coicop_category p \<noteq> None) ps)"
    unfolding compute_national_share_def total_expenditure_def by (simp only: ne)
  have "fst ` set (compute_national_share r hs es ps) = fst ` set (national_expenditure r hs es ps)"
    by (force simp: compute_national_share_def image_iff)
  also have "\<dots> = {k. Some k \<in> fst ` set (weighted_expenses r hs es ps)}"
    by (simp add: national_expenditure_def groupby_sum_keys)
  also have "\<dots> \<subseteq> ran coicop_mapping"
    by (auto simp: weighted_expenses_def coicop_category_def ran_def image_iff)
  finally have names: "fst ` set (compute_national_share r hs es ps) \<subseteq> ran coicop_mapping" .
  show ?thesis using eq names by (simp add: compute_national_share_step_def Let_def)
qed

theorem unmapped_rows_dropped_witness:
  "compute_national_share exact hs_unmapped es_unmapped ps_unmapped
     = compute_national_share exact hs_unmapped es_unmapped
         [\<lparr>product_id = 1, coicop_survey_1 = IntCode 1\<rparr>]"
proof -
  have "filter (\<lambda>p. coicop_category p \<noteq> None) ps_unmapped
      = [\<lparr>product_id = 1, coicop_survey_1 = IntCode 1\<rparr>]"
    by (simp add: ps_unmapped_def coicop_category_def coicop_mapping_def str_int_def
        str_nat.simps)
  with unmapped_rows_dropped [of exact hs_unmapped es_unmapped ps_unmapped]
  show ?thesis by simp
qed

text \<open>
  C4, as the claim states it, fails: three quarters of the spending is on the product of
  code 13, and the table has the one row of category 1, with a share of 100.
\<close>

theorem unmapped_bucket_counterexample:
  "coicop_category \<lparr>product_id = 2, coicop_survey_1 = IntCode 13\<rparr> = None
   \<and> compute_national_share exact hs_unmapped es_unmapped ps_unmapped
       = [(''FOOD AND NON-ALCOHOLIC BEVERAGES'', Fin 100)]
   \<and> compute_national_share binary64 hs_unmapped es_unmapped ps_unmapped
       = [(''FOOD AND NON-ALCOHOLIC BEVERAGES'', Fin 100)]"
  by (simp add: share_eval exact_def b64_values rint_def hs_unmapped_def es_unmapped_def
      ps_unmapped_def)

lemma fdiv_zero_not_finite: "\<not> is_finite (fdiv r x (Fin 0))"
  by (cases x) (simp_all add: inf_by_sign_def)

lemma fmul_hundred_not_finite: "\<not> is_finite x \<Longrightarrow> \<not> is_finite (fmul r x (Fin 100))"
  by (cases x) (simp_all add: inf_by_sign_def)

lemma hundred_fmul_not_finite: "\<not> is_finite x \<Longrightarrow> \<not> is_finite (fmul r (Fin 100) x)"
  by (cases x) (simp_all add: inf_by_sign_def)

lemma round2_not_finite: "\<not> is_finite x \<Longrightarrow> \<not> is_finite (round2 r x)"
  by (cases x) (simp_all add: round2_def inf_by_sign_def)

lemma fadd_not_finite: "\<not> is_finite x \<Longrightarrow> \<not> is_finite (fadd r acc x)"
  by (cases x; cases acc) simp_all

lemma cumsum_from_not_finite:
  "\<forall>x \<in> set xs. \<not> is_finite x \<Longrightarrow> \<forall>y \<in> set (cumsum_from r acc xs). \<not> is_finite y"
  by (induction xs arbitrary: acc) (simp_all add: fadd_not_finite)

lemma length_cumsum_from: "length (cumsum_from r acc xs) = length xs"
  by (induction xs arbitrary: acc) simp_all

lemma length_cum_exp: "length (cum_exp r ts) = length ts"
  by (simp add: cum_exp_def cumulative_share_def cumsum_def length_cumsum_from
      expenditure_weight_def)

lemma length_cum_pop: "length (cum_pop r ts) = length ts"
  by (simp add: cum_pop_def cumulative_share_def cumsum_def length_cumsum_from
      population_weight_def)

lemma argmin_from_bound:
  "argmin_from i best xs = Some k \<Longrightarrow> (\<And>j y. best = Some (j, y) \<Longrightarrow> j < i)
     \<Longrightarrow> k < i + length xs"
proof (induction xs arbitrary: i best)
  case Nil
  then show ?case by (cases best) auto
next
  case (Cons x xs)
  from Cons.prems(1) have
    "argmin_from (Suc i)
       (if isnull x then best
        else case best of None \<Rightarrow> Some (i, x)
             | Some (j, y) \<Rightarrow> if flt x y then Some (i, x) else Some (j, y)) xs = Some k"
    by simp
  then have "k < Suc i + length xs"
  proof (rule Cons.IH)
    fix j y
    assume "(if isnull x then best
        else case best of None \<Rightarrow> Some (i, x)
             | Some (j, y) \<Rightarrow> if flt x y then Some (i, x) else Some (j, y)) = Some (j, y)"
    then show "j < Suc i"
      using Cons.prems(2) by (auto split: if_splits option.splits simp: less_Suc_eq)
  qed
  then show ?case by simp
qed

lemma nearest_fifty_bound: "nearest_fifty r xs = Inr i \<Longrightarrow> i < length xs"
  using argmin_from_bound [of 0 None "map (distance_to_half r) xs" i]
  by (auto simp: nearest_fifty_def argmin_def split: option.splits)

text \<open>
  C10. Neither division is guarded. When the grand total of the aggregator is zero,
  no share of its table is a number (each is \<open>NaN\<close> or an infinity); when the total
  weighted expenditure of the Lorenz stage is zero, no cumulative expenditure share is a
  number, and neither is the bottom-50% share the stage reports. A positive total is a
  precondition of both stages.
\<close>

theorem zero_total_shares_undefined:
  "(total_expenditure r hs es ps = Fin 0 \<longrightarrow>
      (\<forall>row \<in> set (compute_national_share r hs es ps). \<not> is_finite (snd row)))
   \<and> (series_sum r (expenditure_weight r (sorted_totals r hs es)) = Fin 0 \<longrightarrow>
      (\<forall>x \<in> set (cum_exp r (sorted_totals r hs es)). \<not> is_finite x)
      \<and> (\<forall>share gini. compute_lorenz_curve_and_gini r hs es = Inr (share, gini)
            \<longrightarrow> \<not> is_finite share))"
proof (intro conjI impI)
  assume "total_expenditure r hs es ps = Fin 0"
  then show "\<forall>row \<in> set (compute_national_share r hs es ps). \<not> is_finite (snd row)"
    by (auto simp: compute_national_share_def round2_not_finite fmul_hundred_not_finite
        fdiv_zero_not_finite)
next
  assume zero: "series_sum r (expenditure_weight r (sorted_totals r hs es)) = Fin 0"
  show all: "\<forall>x \<in> set (cum_exp r (sorted_totals r hs es)). \<not> is_finite x"
    unfolding cum_exp_def cumulative_share_def cumsum_def zero
    by (rule cumsum_from_not_finite) (simp add: fdiv_zero_not_finite)
  show "\<forall>share gini. compute_lorenz_curve_and_gini r hs es = Inr (share, gini)
            \<longrightarrow> \<not> is_finite share"
  proof (intro allI impI)
    fix share gini
    assume "compute_lorenz_curve_and_gini r hs es = Inr (share, gini)"
    then obtain i where i: "nearest_fifty r (cum_pop r (sorted_totals r hs es)) = Inr i"
      and share: "share = fifty_percentile_share r (cum_exp r (sorted_totals r hs es)) i"
      by (auto simp: compute_lorenz_curve_and_gini_def Let_def split: sum.splits)
    from i have "i < length (cum_exp r (sorted_totals r hs es))"
      using nearest_fifty_bound [OF i] by (simp add: length_cum_pop length_cum_exp)
    with all have "\<not> is_finite (cum_exp r (sorted_totals r hs es) ! i)"
      by simp
    then show "\<not> is_finite share"
      by (simp add: share fifty_percentile_share_def round2_not_finite hundred_fmul_not_finite)
  qed
qed

theorem zero_total_shares_undefined_witness:
  "total_expenditure exact hs_zero es_zero ps_zero = Fin 0
   \<and> (''FOOD AND NON-ALCOHOLIC BEVERAGES'', NaN)
        \<in> set (compute_national_share exact hs_zero es_zero ps_zero)
   \<and> \<not> is_finite (snd (''FOOD AND NON-ALCOHOLIC BEVERAGES'', NaN))
   \<and> series_sum exact (expenditure_weight exact (sorted_totals exact hs_zero es_zero)) = Fin 0
   \<and> compute_lorenz_curve_and_gini exact hs_zero es_zero = Inr (NaN, NaN)
   \<and> \<not> is_finite NaN"
proof -
  have t: "total_expenditure exact hs_zero es_zero ps_zero = Fin 0"
    by (simp add: share_eval exact_def hs_zero_def es_zero_def ps_zero_def)
  have m: "(''FOOD AND NON-ALCOHOLIC BEVERAGES'', NaN)
      \<in> set (compute_national_share exact hs_zero es_zero ps_zero)"
    by (simp add: share_eval exact_def inf_by_sign_def hs_zero_def es_zero_def ps_zero_def)
  have s: "series_sum exact (expenditure_weight exact (sorted_totals exact hs_zero es_zero)) = Fin 0"
    by (simp add: table_simps share_simps exact_def inf_by_sign_def hs_zero_def es_zero_def)
  have l: "compute_lorenz_curve_and_gini exact hs_zero es_zero = Inr (NaN, NaN)"
    by (simp add: table_simps share_simps result_simps exact_def inf_by_sign_def
        hs_zero_def es_zero_def)
  from zero_total_shares_undefined [of exact hs_zero es_zero ps_zero] t m s l
  show ?thesis by blast
qed






section \<open>Properties of the Lorenz stage\<close>

subsection \<open>The row nearest to one half\<close>

lemma flt_irrefl: "\<not> flt x x"
  by (cases x) simp_all

lemma flt_asym: "flt x y \<Longrightarrow> \<not> flt y x"
  by (cases x; cases y) simp_all

lemma flt_below: "flt x y \<Longrightarrow> \<not> flt p y \<Longrightarrow> \<not> isnull p \<Longrightarrow> flt x p"
  by (cases x; cases y; cases p) (simp_all add: isnull_def)

lemma fle_iff: "fle x y \<longleftrightarrow> \<not> isnull x \<and> \<not> isnull y \<and> \<not> flt y x"
  by (simp add: fle_def isnull_def)

lemma first_smallest_skip:
  assumes "first_smallest pre j" "isnull x"
  shows "first_smallest (pre @ [x]) j"
  using assms unfolding first_smallest_def
  by (auto simp: nth_append less_Suc_eq)

lemma first_smallest_keep:
  assumes "first_smallest pre j" "\<not> flt x (pre ! j)"
  shows "first_smallest (pre @ [x]) j"
  using assms unfolding first_smallest_def
  by (auto simp: nth_append less_Suc_eq)

lemma first_smallest_new:
  assumes "first_smallest pre j" "flt x (pre ! j)" "\<not> isnull x"
  shows "first_smallest (pre @ [x]) (length pre)"
  using assms unfolding first_smallest_def
  by (auto simp: nth_append less_Suc_eq flt_irrefl dest: flt_below flt_asym)

lemma first_smallest_first:
  assumes "\<forall>y \<in> set pre. isnull y" "\<not> isnull x"
  shows "first_smallest (pre @ [x]) (length pre)"
  using assms unfolding first_smallest_def
  by (auto simp: nth_append less_Suc_eq flt_irrefl)

lemma argmin_from_first_smallest:
  "argmin_from (length pre) best xs = Some k \<Longrightarrow>
   (case best of None \<Rightarrow> (\<forall>y \<in> set pre. isnull y)
               | Some (j, y) \<Rightarrow> y = pre ! j \<and> first_smallest pre j) \<Longrightarrow>
   first_smallest (pre @ xs) k"
proof (induction xs arbitrary: pre best)
  case Nil
  then show ?case by (cases best) auto
next
  case (Cons x xs)
  let ?best = "if isnull x then best
        else case best of None \<Rightarrow> Some (length pre, x)
             | Some (j, y) \<Rightarrow> if flt x y then Some (length pre, x) else Some (j, y)"
  from Cons.prems(1) have run: "argmin_from (length (pre @ [x])) ?best xs = Some k"
    by simp
  have inv: "case ?best of None \<Rightarrow> (\<forall>y \<in> set (pre @ [x]). isnull y)
               | Some (j, y) \<Rightarrow> y = (pre @ [x]) ! j \<and> first_smallest (pre @ [x]) j"
  proof (cases best)
    case None
    with Cons.prems(2) show ?thesis
      by (auto simp: first_smallest_first)
  next
    case (Some b)
    obtain j y where b: "b = (j, y)" by (cases b)
    with Some Cons.prems(2) have y: "y = pre ! j" and fs: "first_smallest pre j"
      by auto
    from fs have j: "j < length pre" by (simp add: first_smallest_def)
    show ?thesis
      using Some b y fs j
      by (auto simp: nth_append first_smallest_skip first_smallest_keep first_smallest_new)
  qed
  from Cons.IH [OF run inv] show ?case by simp
qed

lemma argmin_first_smallest: "argmin ds = Inr k \<Longrightarrow> first_smallest ds k"
  using argmin_from_first_smallest [of "[]" None ds k]
  by (auto simp: argmin_def split: option.splits)

lemma argmin_from_none:
  "argmin_from i best xs = None \<longleftrightarrow> best = None \<and> (\<forall>x \<in> set xs. isnull x)"
  by (induction xs arbitrary: i best) (auto split: option.splits)

lemma argmin_error: "argmin ds = Inl ValueError \<longleftrightarrow> (\<forall>x \<in> set ds. isnull x)"
  using argmin_from_none [of 0 None ds]
  by (auto simp: argmin_def split: option.splits)

lemma isnull_distance_to_half: "isnull (distance_to_half r x) \<longleftrightarrow> isnull x"
  by (cases x) (simp_all add: distance_to_half_def fsub_def isnull_def)

lemma nearest_fifty_first_smallest:
  assumes "nearest_fifty r xs = Inr i"
  shows "i < length xs \<and> \<not> isnull (xs ! i)
     \<and> (\<forall>j < length xs. \<not> isnull (xs ! j)
           \<longrightarrow> fle (distance_to_half r (xs ! i)) (distance_to_half r (xs ! j)))
     \<and> (\<forall>j < i. \<not> isnull (xs ! j)
           \<longrightarrow> flt (distance_to_half r (xs ! i)) (distance_to_half r (xs ! j)))"
proof -
  from assms have fs: "first_smallest (map (distance_to_half r) xs) i"
    by (simp add: nearest_fifty_def argmin_first_smallest)
  then have i: "i < length xs" by (simp add: first_smallest_def)
  from fs i show ?thesis
    unfolding first_smallest_def fle_iff
    by (simp add: isnull_distance_to_half)
qed

text \<open>
  C5. The stage fails, with the \<open>ValueError\<close> of \<open>argmin\<close>, exactly when no row has a
  cumulative population share (no row at all, or missing values only). When it returns,
  the share it reports is that of a row \<open>i\<close> of the table sorted by per-capita
  expenditure such that: no row is nearer to 0.5 in cumulative population share, every
  row before \<open>i\<close> is farther from it (the first of the nearest rows is taken), and the
  reported number is the cumulative expenditure share of row \<open>i\<close> times 100, rounded
  to 2 decimal places. Rows whose cumulative population share is missing are not
  compared; valid data has none.
\<close>

theorem bottom_fifty_nearest_row:
  "(compute_lorenz_curve_and_gini r hs es = Inl ValueError
      \<longleftrightarrow> (\<forall>x \<in> set (cum_pop r (sorted_totals r hs es)). isnull x))
   \<and> (\<forall>share gini. compute_lorenz_curve_and_gini r hs es = Inr (share, gini) \<longrightarrow>
        (\<exists>i < length (sorted_totals r hs es).
           \<not> isnull (cum_pop r (sorted_totals r hs es) ! i)
           \<and> (\<forall>j < length (sorted_totals r hs es).
                 \<not> isnull (cum_pop r (sorted_totals r hs es) ! j) \<longrightarrow>
                 fle (distance_to_half r (cum_pop r (sorted_totals r hs es) ! i))
                     (distance_to_half r (cum_pop r (sorted_totals r hs es) ! j)))
           \<and> (\<forall>j < i.
                 \<not> isnull (cum_pop r (sorted_totals r hs es) ! j) \<longrightarrow>
                 flt (distance_to_half r (cum_pop r (sorted_totals r hs es) ! i))
                     (distance_to_half r (cum_pop r (sorted_totals r hs es) ! j)))
           \<and> share = round2 r (fmul r (Fin 100) (cum_exp r (sorted_totals r hs es) ! i))))"
proof (intro conjI allI impI)
  show "compute_lorenz_curve_and_gini r hs es = Inl ValueError
      \<longleftrightarrow> (\<forall>x \<in> set (cum_pop r (sorted_totals r hs es)). isnull x)"
    using argmin_error [of "map (distance_to_half r) (cum_pop r (sorted_totals r hs es))"]
    by (auto simp: compute_lorenz_curve_and_gini_def Let_def nearest_fifty_def
        isnull_distance_to_half split: sum.splits)
next
  fix share gini
  assume "compute_lorenz_curve_and_gini r hs es = Inr (share, gini)"
  then obtain i where i: "nearest_fifty r (cum_pop r (sorted_totals r hs es)) = Inr i"
    and share: "share = fifty_percentile_share r (cum_exp r (sorted_totals r hs es)) i"
    by (auto simp: compute_lorenz_curve_and_gini_def Let_def split: sum.splits)
  from nearest_fifty_first_smallest [OF i] share
  show "\<exists>i < length (sorted_totals r hs es).
           \<not> isnull (cum_pop r (sorted_totals r hs es) ! i)
           \<and> (\<forall>j < length (sorted_totals r hs es).
                 \<not> isnull (cum_pop r (sorted_totals r hs es) ! j) \<longrightarrow>
                 fle (distance_to_half r (cum_pop r (sorted_totals r hs es) ! i))
                     (distance_to_half r (cum_pop r (sorted_totals r hs es) ! j)))
           \<and> (\<forall>j < i.
                 \<not> isnull (cum_pop r (sorted_totals r hs es) ! j) \<longrightarrow>
                 flt (distance_to_half r (cum_pop r (sorted_totals r hs es) ! i))
                     (distance_to_half r (cum_pop r (sorted_totals r hs es) ! j)))
           \<and> share = round2 r (fmul r (Fin 100) (cum_exp r (sorted_totals r hs es) ! i))"
    by (intro exI [of _ i]) (simp add: length_cum_pop fifty_percentile_share_def)
qed

subsection \<open>The scenario of the specification\<close>

lemma scenario_exact:
  "compute_lorenz_curve_and_gini exact scenario_households scenario_expenses
     = Inr (Fin (1667 / 100), Fin (5 / 18))"
  by (simp add: table_simps share_simps result_simps exact_def rint_def
      scenario_households_def scenario_expenses_def)

theorem bottom_fifty_nearest_row_witness:
  "compute_lorenz_curve_and_gini exact scenario_households scenario_expenses
     = Inr (Fin (1667 / 100), Fin (5 / 18))
   \<and> (\<exists>i < length (sorted_totals exact scenario_households scenario_expenses).
         Fin (1667 / 100) = round2 exact (fmul exact (Fin 100)
           (cum_exp exact (sorted_totals exact scenario_households scenario_expenses) ! i)))"
  using bottom_fifty_nearest_row [of exact scenario_households scenario_expenses] scenario_exact
  by blast

lemma scenario_sorted_totals:
  "sorted_totals binary64 scenario_households scenario_expenses =
   [\<lparr>t_hh_id = 1, t_annual_expenditure = Fin 10, t_weight = Fin 1, t_hh_size = Fin 1\<rparr>,
    \<lparr>t_hh_id = 2, t_annual_expenditure = Fin 20, t_weight = Fin 1, t_hh_size = Fin 1\<rparr>,
    \<lparr>t_hh_id = 3, t_annual_expenditure = Fin 30, t_weight = Fin 1, t_hh_size = Fin 1\<rparr>]"
  by (simp add: table_simps scenario_households_def scenario_expenses_def b64_values)

lemma scenario_per_capita:
  "map (per_capita_expenditure binary64)
     (sorted_totals binary64 scenario_households scenario_expenses)
    = [Fin 10, Fin 20, Fin 30]"
  unfolding scenario_sorted_totals by (simp add: per_capita_expenditure_def b64_values)

lemma scenario_cum_pop:
  "cum_pop binary64 (sorted_totals binary64 scenario_households scenario_expenses) =
   [Fin (binary64 (1 / 3)), Fin (binary64 (2 / 3)), Fin 1]"
  unfolding scenario_sorted_totals
  apply (simp add: share_simps b64_values)
  apply (simp add: b64)
  done

lemma scenario_cum_exp:
  "cum_exp binary64 (sorted_totals binary64 scenario_households scenario_expenses) =
   [Fin (binary64 (1 / 6)), Fin (1 / 2), Fin 1]"
  unfolding scenario_sorted_totals
  apply (simp add: share_simps b64_values)
  apply (simp add: b64)
  done

lemma scenario_distances:
  "flt (distance_to_half binary64 (Fin (binary64 (2 / 3))))
       (distance_to_half binary64 (Fin (binary64 (1 / 3))))"
  apply (simp add: distance_to_half_def fsub_def)
  apply (simp add: b64)
  done

lemma scenario_nearest_fifty:
  "nearest_fifty binary64
     (cum_pop binary64 (sorted_totals binary64 scenario_households scenario_expenses)) = Inr 1"
  unfolding scenario_cum_pop
  apply (simp add: nearest_fifty_def argmin_def distance_to_half_def fsub_def isnull_def)
  apply (simp add: b64)
  done

lemma scenario_binary64:
  "compute_lorenz_curve_and_gini binary64 scenario_households scenario_expenses
    = Inr (Fin 50, Fin (2501999792983609 / 9007199254740992))"
  unfolding compute_lorenz_curve_and_gini_def Let_def
  apply (simp only: scenario_nearest_fifty)
  apply (simp only: scenario_cum_pop scenario_cum_exp)
  apply (simp add: fifty_percentile_share_def round2_def gini_coefficient_def trapezoid_def
      array_sum_def fsub_def b64_values rint_def)
  apply (simp add: b64)
  done

text \<open>
  C2, as the code has it. On the scenario the stage sorts the per-capita expenditures to
  10, 20, 30; the cumulative population shares are the binary64 numbers nearest to 1/3
  and 2/3, and 1; the cumulative expenditure shares are the binary64 number nearest to
  1/6, and 1/2 and 1. The second row is selected: as rounded, 2/3 is nearer to 0.5 than
  1/3 is. The share reported is that row's, 50.0 per cent; the Gini coefficient printed
  is 0.2778.
\<close>

theorem lorenz_scenario:
  "map (per_capita_expenditure binary64)
     (sorted_totals binary64 scenario_households scenario_expenses)
     = [Fin 10, Fin 20, Fin 30]
   \<and> cum_pop binary64 (sorted_totals binary64 scenario_households scenario_expenses)
     = [Fin (binary64 (1 / 3)), Fin (binary64 (2 / 3)), Fin 1]
   \<and> cum_exp binary64 (sorted_totals binary64 scenario_households scenario_expenses)
     = [Fin (binary64 (1 / 6)), Fin (1 / 2), Fin 1]
   \<and> flt (distance_to_half binary64 (Fin (binary64 (2 / 3))))
         (distance_to_half binary64 (Fin (binary64 (1 / 3))))
   \<and> nearest_fifty binary64
       (cum_pop binary64 (sorted_totals binary64 scenario_households scenario_expenses))
     = Inr 1
   \<and> compute_lorenz_curve_and_gini binary64 scenario_households scenario_expenses
     = Inr (Fin 50, Fin (2501999792983609 / 9007199254740992))"
  using scenario_per_capita scenario_cum_pop scenario_cum_exp scenario_distances
    scenario_nearest_fifty scenario_binary64
  by simp

text \<open>
  C2, as the claim states it, fails: the share reported is not near 83.33, neither with
  binary64 rounding (50.0) nor in exact arithmetic (16.67, where 1/3 and 2/3 are equally
  near to 0.5 and the first is taken).
\<close>

theorem lorenz_scenario_share_counterexample:
  "\<not> (\<exists>x gini. compute_lorenz_curve_and_gini binary64 scenario_households scenario_expenses
          = Inr (Fin x, gini) \<and> \<bar>x - 8333 / 100\<bar> \<le> 1)
   \<and> \<not> (\<exists>x gini. compute_lorenz_curve_and_gini exact scenario_households scenario_expenses
          = Inr (Fin x, gini) \<and> \<bar>x - 8333 / 100\<bar> \<le> 1)"
  by (simp add: scenario_binary64 scenario_exact)

text \<open>
  C3, on two perfectly equal populations. For a single household the stage prints a
  Gini coefficient of 1, and for two households alike 0.25, in exact arithmetic and with
  binary64 rounding: the trapezoids start at the first row, so the area between the
  origin and the first point of the Lorenz curve is left out of the integral.
\<close>

theorem equal_households_gini:
  "compute_lorenz_curve_and_gini exact hs_single es_single = Inr (Fin 100, Fin 1)
   \<and> compute_lorenz_curve_and_gini binary64 hs_single es_single = Inr (Fin 100, Fin 1)
   \<and> compute_lorenz_curve_and_gini exact hs_equal es_equal = Inr (Fin 50, Fin (1 / 4))
   \<and> compute_lorenz_curve_and_gini binary64 hs_equal es_equal = Inr (Fin 50, Fin (1 / 4))"
  by (simp add: table_simps share_simps result_simps b64_values exact_def rint_def
      hs_single_def es_single_def hs_equal_def es_equal_def)

subsection \<open>The cumulative shares\<close>







subsection \<open>The range of the Gini coefficient\<close>

lemma one_against_later:
  assumes "\<forall>b \<in> set post. ratio_le (p, e) b"
  shows "e * sum_list (map fst post) \<le> p * sum_list (map snd post)"
  using assms
  by (induction post) (auto simp: ratio_le_def algebra_simps)

lemma earlier_against_later:
  assumes "\<forall>a \<in> set pre. \<forall>b \<in> set post. ratio_le a b"
  shows "sum_list (map snd pre) * sum_list (map fst post)
       \<le> sum_list (map fst pre) * sum_list (map snd post)"
  using assms
proof (induction pre)
  case Nil
  then show ?case by simp
next
  case (Cons a pre)
  obtain p e where a: "a = (p, e)" by (cases a)
  from Cons.prems have "e * sum_list (map fst post) \<le> p * sum_list (map snd post)"
    by (intro one_against_later) (simp add: a)
  moreover from Cons have "sum_list (map snd pre) * sum_list (map fst post)
       \<le> sum_list (map fst pre) * sum_list (map snd post)"
    by simp
  ultimately show ?case by (simp add: a algebra_simps)
qed

lemma lorenz_below_diagonal:
  fixes A B Pa Pb :: rat
  assumes "A * Pb \<le> Pa * B" "0 \<le> A" "0 \<le> B" "0 < A + B" "0 \<le> Pa" "0 \<le> Pb" "0 < Pa + Pb"
  shows "A / (A + B) \<le> Pa / (Pa + Pb)"
proof -
  have "A * (Pa + Pb) \<le> Pa * (A + B)"
    using assms(1) by (simp add: algebra_simps)
  then show ?thesis
    using assms(4,7) by (simp add: field_simps)
qed

lemma running_sorted:
  "\<forall>q \<in> set qs. 0 \<le> q \<Longrightarrow> sorted (running a qs) \<and> (\<forall>x \<in> set (running a qs). a \<le> x)"
proof (induction qs arbitrary: a)
  case Nil
  then show ?case by simp
next
  case (Cons q qs)
  then have "sorted (running (a + q) qs) \<and> (\<forall>x \<in> set (running (a + q) qs). a + q \<le> x)"
    by simp
  moreover have "0 \<le> q" using Cons.prems by simp
  ultimately show ?case by fastforce
qed

lemma running_last: "qs \<noteq> [] \<Longrightarrow> last (running a qs) = a + sum_list qs"
proof (induction qs arbitrary: a)
  case Nil
  then show ?case by simp
next
  case (Cons q qs)
  show ?case
  proof (cases qs)
    case Nil
    then show ?thesis by simp
  next
    case (Cons q' qs')
    then have "last (running a (q # qs)) = last (running (a + q) qs)"
      by simp
    also have "\<dots> = a + q + sum_list qs"
      using Cons.IH [of "a + q"] Cons by simp
    finally show ?thesis by (simp add: add.assoc)
  qed
qed

lemma length_running: "length (running a qs) = length qs"
  by (induction qs arbitrary: a) simp_all

lemma trapezoid_area_bounds:
  "list_all2 (\<lambda>y x. 0 \<le> y \<and> y \<le> x) ys xs \<Longrightarrow> sorted xs \<Longrightarrow> xs \<noteq> [] \<Longrightarrow>
   0 \<le> trapezoid_area ys xs \<and> trapezoid_area ys xs \<le> ((last xs)\<^sup>2 - (hd xs)\<^sup>2) / 2"
proof (induction xs arbitrary: ys)
  case Nil
  then show ?case by simp
next
  case (Cons x0 xs)
  from Cons.prems(1) obtain y0 ys' where ys: "ys = y0 # ys'"
    and y0: "0 \<le> y0" "y0 \<le> x0" and rest: "list_all2 (\<lambda>y x. 0 \<le> y \<and> y \<le> x) ys' xs"
    by (auto simp: list_all2_Cons2)
  show ?case
  proof (cases xs)
    case Nil
    with rest have "ys' = []" by simp
    then show ?thesis by (simp add: ys Nil)
  next
    case (Cons x1 xs')
    with rest obtain y1 ys'' where ys': "ys' = y1 # ys''"
      and y1: "0 \<le> y1" "y1 \<le> x1"
      by (auto simp: list_all2_Cons2)
    from Cons.prems(2) Cons have x01: "x0 \<le> x1" and sorted: "sorted xs"
      by simp_all
    have ih: "0 \<le> trapezoid_area ys' xs \<and> trapezoid_area ys' xs \<le> ((last xs)\<^sup>2 - (hd xs)\<^sup>2) / 2"
      using Cons.IH [OF rest sorted] Cons by simp
    have term_nonneg: "0 \<le> (x1 - x0) * (y1 + y0) / 2"
      using x01 y0 y1 by simp
    have "(x1 - x0) * (y1 + y0) \<le> (x1 - x0) * (x1 + x0)"
      using x01 y0 y1 by (intro mult_left_mono) simp_all
    also have "\<dots> = x1\<^sup>2 - x0\<^sup>2"
      by (simp add: power2_eq_square algebra_simps)
    finally have term_le: "(x1 - x0) * (y1 + y0) / 2 \<le> (x1\<^sup>2 - x0\<^sup>2) / 2"
      by simp
    from ih term_nonneg term_le show ?thesis
      by (simp add: ys ys' Cons field_simps)
  qed
qed

lemma points_below_diagonal:
  assumes "sorted_wrt ratio_le (pre @ post)"
    and "\<forall>r \<in> set (pre @ post). 0 < fst r \<and> 0 \<le> snd r"
    and "P = sum_list (map fst (pre @ post))"
    and "E = sum_list (map snd (pre @ post))"
    and "0 < E"
  shows "list_all2 (\<lambda>y x. 0 \<le> y \<and> y \<le> x)
      (running (sum_list (map snd pre) / E) (map (\<lambda>r. snd r / E) post))
      (running (sum_list (map fst pre) / P) (map (\<lambda>r. fst r / P) post))"
  using assms
proof (induction post arbitrary: pre)
  case Nil
  then show ?case by simp
next
  case (Cons r post)
  let ?pre = "pre @ [r]"
  have split: "?pre @ post = pre @ r # post" by simp
  let ?A = "sum_list (map snd ?pre)" and ?B = "sum_list (map snd post)"
  let ?Pa = "sum_list (map fst ?pre)" and ?Pb = "sum_list (map fst post)"
  have nonneg: "\<And>xs. set xs \<subseteq> set (pre @ r # post) \<Longrightarrow>
      0 \<le> sum_list (map snd xs) \<and> 0 \<le> sum_list (map fst xs)"
  proof -
    fix xs :: "(rat \<times> rat) list"
    assume "set xs \<subseteq> set (pre @ r # post)"
    with Cons.prems(2) have "\<forall>x \<in> set xs. 0 \<le> fst x \<and> 0 \<le> snd x"
      by (meson less_imp_le subsetD)
    then show "0 \<le> sum_list (map snd xs) \<and> 0 \<le> sum_list (map fst xs)"
      by (auto intro!: sum_list_nonneg)
  qed
  have A: "0 \<le> ?A" and Pa0: "0 \<le> ?Pa" using nonneg [of ?pre] by auto
  have B: "0 \<le> ?B" and Pb: "0 \<le> ?Pb" using nonneg [of post] by auto
  have r_pos: "0 < fst r" using Cons.prems(2) by simp
  have "0 \<le> sum_list (map fst pre)" using nonneg [of pre] by auto
  with r_pos have Pa: "0 < ?Pa" by simp
  have E: "E = ?A + ?B" and P: "P = ?Pa + ?Pb"
    using Cons.prems(3,4) by simp_all
  have cross: "\<forall>a \<in> set ?pre. \<forall>b \<in> set post. ratio_le a b"
    using Cons.prems(1) unfolding split [symmetric] sorted_wrt_append by blast
  have "?A * ?Pb \<le> ?Pa * ?B"
    using cross by (rule earlier_against_later)
  then have "?A / (?A + ?B) \<le> ?Pa / (?Pa + ?Pb)"
    using A B Pa0 Pb Pa Cons.prems(5) E by (intro lorenz_below_diagonal) simp_all
  then have first: "0 \<le> ?A / E \<and> ?A / E \<le> ?Pa / P"
    using A Cons.prems(5) by (simp add: E P)
  have tail: "list_all2 (\<lambda>y x. 0 \<le> y \<and> y \<le> x)
      (running (?A / E) (map (\<lambda>r. snd r / E) post))
      (running (?Pa / P) (map (\<lambda>r. fst r / P) post))"
    using Cons.prems by (intro Cons.IH) simp_all
  have accs: "sum_list (map snd pre) / E + snd r / E = ?A / E"
    "sum_list (map fst pre) / P + fst r / P = ?Pa / P"
    by (simp_all add: add_divide_distrib)
  show ?case
    using first tail by (simp add: accs del: sum_list_append map_append)
qed

lemma sorts_before_total: "sorts_before x y \<or> sorts_before y x"
  by (cases x; cases y) (auto simp: sorts_before_def)

lemma sorts_before_trans: "sorts_before x y \<Longrightarrow> sorts_before y z \<Longrightarrow> sorts_before x z"
  by (cases x; cases y; cases z) (auto simp: sorts_before_def)

lemma sorted_insert_value:
  "sorted_wrt (\<lambda>a b. sorts_before (f a) (f b)) xs \<Longrightarrow>
   sorted_wrt (\<lambda>a b. sorts_before (f a) (f b)) (insert_value f x xs)"
proof (induction xs)
  case Nil
  then show ?case by simp
next
  case (Cons y ys)
  show ?case
  proof (cases "sorts_before (f x) (f y)")
    case True
    with Cons.prems show ?thesis
      by (auto intro: sorts_before_trans)
  next
    case False
    then have "sorts_before (f y) (f x)"
      using sorts_before_total by blast
    with False Cons show ?thesis
      by (auto simp: set_insert_value)
  qed
qed

lemma sorted_sort_values: "sorted_wrt (\<lambda>a b. sorts_before (f a) (f b)) (sort_values f xs)"
  by (induction xs) (simp_all add: sort_values_def sorted_insert_value)

lemma cumsum_from_Fin:
  "cumsum_from (\<lambda>v. v) (Fin a) (map Fin qs) = map Fin (running a qs)"
  by (induction qs arbitrary: a) (simp_all add: isnull_def)

lemma foldl_fadd_Fin: "foldl (fadd (\<lambda>v. v)) (Fin a) (map Fin zs) = Fin (a + sum_list zs)"
  by (induction zs arbitrary: a) (simp_all add: add.assoc)

lemma foldl_trapezoid_terms:
  "foldl (fadd (\<lambda>v. v)) (Fin a) (trapezoid_terms (\<lambda>v. v) (map Fin ys) (map Fin xs))
     = Fin (a + trapezoid_area ys xs)"
  by (induction ys xs arbitrary: a rule: trapezoid_area.induct)
    (simp_all add: fsub_def add.assoc)

lemma gini_coefficient_Fin:
  "gini_coefficient (\<lambda>v. v) (map Fin ys) (map Fin xs) = Fin (1 - 2 * trapezoid_area ys xs)"
  by (simp add: gini_coefficient_def trapezoid_def array_sum_def foldl_trapezoid_terms fsub_def)

lemma valid_total_fields:
  assumes "valid_total t"
  obtains s w x where "t_hh_size t = Fin s" "t_weight t = Fin w" "t_annual_expenditure t = Fin x"
    "0 < s" "0 < w" "0 \<le> x"
  using assms by (auto simp: valid_total_def positive_iff non_negative_iff)

lemma lorenz_weights_valid:
  "valid_total t \<Longrightarrow> 0 < fst (lorenz_weights t) \<and> 0 \<le> snd (lorenz_weights t)"
  by (erule valid_total_fields) (simp add: lorenz_weights_def)

lemma population_weight_valid:
  "\<forall>t \<in> set ts. valid_total t \<Longrightarrow>
   population_weight (\<lambda>v. v) ts = map Fin (map fst (map lorenz_weights ts))"
  by (induction ts) (auto simp: population_weight_def lorenz_weights_def elim!: valid_total_fields)

lemma expenditure_weight_valid:
  "\<forall>t \<in> set ts. valid_total t \<Longrightarrow>
   expenditure_weight (\<lambda>v. v) ts = map Fin (map snd (map lorenz_weights ts))"
  by (induction ts) (auto simp: expenditure_weight_def lorenz_weights_def elim!: valid_total_fields)

lemma per_capita_order:
  assumes a: "valid_total a" and b: "valid_total b"
    and le: "sorts_before (per_capita_expenditure (\<lambda>v. v) a) (per_capita_expenditure (\<lambda>v. v) b)"
  shows "ratio_le (lorenz_weights a) (lorenz_weights b)"
proof -
  from a obtain sa wa xa where fa: "t_hh_size a = Fin sa" "t_weight a = Fin wa"
      "t_annual_expenditure a = Fin xa" and pa: "0 < sa" "0 < wa" "0 \<le> xa"
    by (rule valid_total_fields)
  from b obtain sb wb xb where fb: "t_hh_size b = Fin sb" "t_weight b = Fin wb"
      "t_annual_expenditure b = Fin xb" and pb: "0 < sb" "0 < wb" "0 \<le> xb"
    by (rule valid_total_fields)
  from le have "xa / sa \<le> xb / sb"
    using pa pb by (simp add: per_capita_expenditure_def sorts_before_def fa fb)
  then have "xa * sb \<le> xb * sa"
    using pa pb by (simp add: field_simps)
  then have "(xa * sb) * (wa * wb) \<le> (xb * sa) * (wa * wb)"
    using pa pb by (intro mult_right_mono) simp_all
  then show ?thesis
    by (simp add: ratio_le_def lorenz_weights_def fa fb algebra_simps)
qed

lemma series_sum_Fin: "series_sum (\<lambda>v. v) (map Fin zs) = Fin (sum_list zs)"
  by (simp add: series_sum_def array_sum_def isnull_def foldl_fadd_Fin)

lemma cumulative_share_Fin:
  "sum_list zs \<noteq> 0 \<Longrightarrow>
   cumulative_share (\<lambda>v. v) (map Fin zs) = map Fin (running 0 (map (\<lambda>z. z / sum_list zs) zs))"
  using cumsum_from_Fin [of 0 "map (\<lambda>z. z / sum_list zs) zs"]
  by (simp add: cumulative_share_def series_sum_Fin cumsum_def comp_def)

lemma sum_list_positive:
  fixes xs :: "rat list"
  assumes "xs \<noteq> []" "\<forall>x \<in> set xs. 0 < x"
  shows "0 < sum_list xs"
proof (cases xs)
  case Nil
  with assms(1) show ?thesis by simp
next
  case (Cons x xs')
  have "0 \<le> sum_list xs'"
    using assms(2) Cons by (intro sum_list_nonneg) (simp add: less_imp_le)
  moreover have "0 < x" using assms(2) Cons by simp
  ultimately show ?thesis by (simp add: Cons add_pos_nonneg)
qed

text \<open>
  The range of the Gini coefficient, in exact arithmetic. On valid tables with a positive
  total weighted expenditure the stage returns, and the coefficient it prints lies
  between 0 and 1: the rows are sorted by per-capita expenditure, so no point of the
  Lorenz curve lies above the diagonal, and the trapezoid area is between 0 and 1/2.
\<close>

theorem gini_in_unit_interval:
  assumes hs: "valid_households hs" and es: "valid_expenses es"
    and total: "positive (series_sum exact (expenditure_weight exact (sorted_totals exact hs es)))"
  shows "\<exists>share g. compute_lorenz_curve_and_gini exact hs es = Inr (share, Fin g)
           \<and> 0 \<le> g \<and> g \<le> 1"
proof -
  let ?ts = "sorted_totals (\<lambda>v. v) hs es"
  let ?rs = "map lorenz_weights ?ts"
  let ?P = "sum_list (map fst ?rs)" and ?E = "sum_list (map snd ?rs)"
  let ?X = "running 0 (map (\<lambda>r. fst r / ?P) ?rs)"
  let ?Y = "running 0 (map (\<lambda>r. snd r / ?E) ?rs)"
  have valid: "\<forall>t \<in> set ?ts. valid_total t"
    using sorted_totals_valid [OF hs es] by (simp add: valid_total_def)
  have rows: "\<forall>r \<in> set ?rs. 0 < fst r \<and> 0 \<le> snd r"
    using valid by (auto simp: lorenz_weights_valid)
  have ew: "expenditure_weight (\<lambda>v. v) ?ts = map Fin (map snd ?rs)"
    using valid by (rule expenditure_weight_valid)
  have pw: "population_weight (\<lambda>v. v) ?ts = map Fin (map fst ?rs)"
    using valid by (rule population_weight_valid)
  from total have "positive (series_sum (\<lambda>v. v) (map Fin (map snd ?rs)))"
    unfolding exact_eq ew .
  then have E: "0 < ?E"
    unfolding series_sum_Fin by simp
  then have ne: "?rs \<noteq> []" by auto
  have P: "0 < ?P"
    using ne rows by (intro sum_list_positive) auto
  have sorted: "sorted_wrt ratio_le ?rs"
  proof -
    have "sorted_wrt (\<lambda>a b. sorts_before (per_capita_expenditure (\<lambda>v. v) a)
        (per_capita_expenditure (\<lambda>v. v) b)) ?ts"
      by (simp add: sorted_totals_def sorted_sort_values)
    then have "sorted_wrt (\<lambda>a b. ratio_le (lorenz_weights a) (lorenz_weights b)) ?ts"
      by (rule sorted_wrt_mono_rel [rotated]) (use valid in \<open>auto intro: per_capita_order\<close>)
    then show ?thesis by (simp add: sorted_wrt_map)
  qed
  have "map (\<lambda>z. z / ?P) (map fst ?rs) = map (\<lambda>r. fst r / ?P) ?rs"
    by simp
  moreover have "cumulative_share (\<lambda>v. v) (map Fin (map fst ?rs))
      = map Fin (running 0 (map (\<lambda>z. z / ?P) (map fst ?rs)))"
    using P by (intro cumulative_share_Fin) simp
  ultimately have cp: "cum_pop (\<lambda>v. v) ?ts = map Fin ?X"
    unfolding cum_pop_def pw by (simp only:)
  have "map (\<lambda>z. z / ?E) (map snd ?rs) = map (\<lambda>r. snd r / ?E) ?rs"
    by simp
  moreover have "cumulative_share (\<lambda>v. v) (map Fin (map snd ?rs))
      = map Fin (running 0 (map (\<lambda>z. z / ?E) (map snd ?rs)))"
    using E by (intro cumulative_share_Fin) simp
  ultimately have ce: "cum_exp (\<lambda>v. v) ?ts = map Fin ?Y"
    unfolding cum_exp_def ew by (simp only:)
  have below: "list_all2 (\<lambda>y x. 0 \<le> y \<and> y \<le> x) ?Y ?X"
    using points_below_diagonal [of "[]" ?rs ?P ?E] sorted rows E by simp
  have incs: "\<forall>q \<in> set (map (\<lambda>r. fst r / ?P) ?rs). 0 \<le> q"
    using rows P by (auto simp: less_imp_le)
  have X_sorted: "sorted ?X" and X_lower: "\<forall>x \<in> set ?X. 0 \<le> x"
    using running_sorted [OF incs, of 0] by auto
  have X_ne: "?X \<noteq> []" using ne by (cases ?rs) simp_all
  have "sum_list (map (\<lambda>r. fst r / ?P) ?rs) = sum_list (map (\<lambda>r. fst r * inverse ?P) ?rs)"
    by (simp only: divide_inverse)
  also have "\<dots> = sum_list (map fst ?rs) * inverse ?P"
    by (rule sum_list_mult_const)
  also have "\<dots> = 1" using P by simp
  finally have "last ?X = 1"
    using running_last [of "map (\<lambda>r. fst r / ?P) ?rs" 0] ne by simp
  moreover have "0 \<le> hd ?X" using X_lower X_ne by simp
  ultimately have area: "0 \<le> trapezoid_area ?Y ?X" "trapezoid_area ?Y ?X \<le> 1 / 2"
    using trapezoid_area_bounds [OF below X_sorted X_ne]
    by (auto simp: power2_eq_square intro: order_trans)
  have gini: "gini_coefficient (\<lambda>v. v) (cum_exp (\<lambda>v. v) ?ts) (cum_pop (\<lambda>v. v) ?ts)
      = Fin (1 - 2 * trapezoid_area ?Y ?X)"
    by (simp only: cp ce gini_coefficient_Fin)
  have "Fin (hd ?X) \<in> set (cum_pop (\<lambda>v. v) ?ts)"
    unfolding cp using X_ne by simp
  then have "distance_to_half (\<lambda>v. v) (Fin (hd ?X))
      \<in> set (map (distance_to_half (\<lambda>v. v)) (cum_pop (\<lambda>v. v) ?ts))"
    by auto
  moreover have "\<not> isnull (distance_to_half (\<lambda>v. v) (Fin (hd ?X)))"
    unfolding isnull_distance_to_half by (simp add: isnull_def)
  ultimately have "\<not> (\<forall>x \<in> set (map (distance_to_half (\<lambda>v. v)) (cum_pop (\<lambda>v. v) ?ts)). isnull x)"
    by blast
  then obtain i where "nearest_fifty (\<lambda>v. v) (cum_pop (\<lambda>v. v) ?ts) = Inr i"
    using argmin_error [of "map (distance_to_half (\<lambda>v. v)) (cum_pop (\<lambda>v. v) ?ts)"]
    by (cases "nearest_fifty (\<lambda>v. v) (cum_pop (\<lambda>v. v) ?ts)")
      (auto simp: nearest_fifty_def, metis py_error.exhaust)
  then have "compute_lorenz_curve_and_gini (\<lambda>v. v) hs es
      = Inr (fifty_percentile_share (\<lambda>v. v) (cum_exp (\<lambda>v. v) ?ts) i,
             Fin (1 - 2 * trapezoid_area ?Y ?X))"
    by (simp add: compute_lorenz_curve_and_gini_def Let_def gini)
  with area show ?thesis
    by (simp add: exact_eq)
qed

end
